theory Spec2Isabelle
  imports Main "HOL-Library.Sublist"
begin

section \<open>Data model (src/types.ts)\<close>

text \<open>
  Identifiers and titles are strings, time stamps are the integer milliseconds of
  \<^verbatim>\<open>Date.now()\<close>.  The TypeScript types are erased when the program runs, and
  \<^verbatim>\<open>handleMoveOption\<close> casts whatever root item it finds to \<^verbatim>\<open>OptionItem\<close> without
  looking at its tag.  The items of a group are therefore modelled as a list of items
  of either kind, and "a group holds only options" is a predicate on values
  (\<open>groupsHoldOptions\<close>), not a property of the type.  An option has no \<^verbatim>\<open>items\<close> field.
\<close>

type_synonym ID = string

datatype item =
    is_OPTION: OPTION (item_id: ID) (item_title: string) (item_createdAt: int)
  | is_GROUP: GROUP (item_id: ID) (item_title: string) (item_createdAt: int) (group_items: "item list")

record Category =
  cat_id :: ID
  title :: string
  description :: "string option"
  createdAt :: int
  modifiedAt :: int
  items :: "item list"

datatype ItemSortField = MANUAL | TITLE | CREATED_AT

datatype ModalMode = createOption | createGroup | moveOption

datatype error = TypeError

section \<open>The array operations of the language\<close>

text \<open>\<^verbatim>\<open>xs.findIndex(p)\<close>: the first index whose element satisfies \<open>p\<close>; \<open>None\<close> stands for -1.\<close>

fun findIndex :: "('a \<Rightarrow> bool) \<Rightarrow> 'a list \<Rightarrow> nat option" where
  "findIndex p [] = None"
| "findIndex p (x # xs) =
     (if p x then Some 0 else map_option Suc (findIndex p xs))"

text \<open>\<^verbatim>\<open>xs.some(p)\<close>.\<close>

definition some :: "('a \<Rightarrow> bool) \<Rightarrow> 'a list \<Rightarrow> bool" where
  "some p xs = list_ex p xs"

text \<open>\<^verbatim>\<open>xs.splice(i, 1)\<close> and \<^verbatim>\<open>xs.splice(i, 0, x)\<close> for an index \<open>i\<close> within the array.\<close>

definition spliceOut :: "nat \<Rightarrow> 'a list \<Rightarrow> 'a list" where
  "spliceOut i xs = take i xs @ drop (Suc i) xs"

definition spliceIn :: "nat \<Rightarrow> 'a \<Rightarrow> 'a list \<Rightarrow> 'a list" where
  "spliceIn i x xs = take i xs @ x # drop i xs"

text \<open>
  \<^verbatim>\<open>arrayMove(array, from, to)\<close> of the drag-and-drop library: a copy of the array in
  which the element at \<open>from\<close> has been taken out and put back at index \<open>to\<close>.  The
  handlers only pass indices that \<open>findIndex\<close> has found, so both lie within the array.
\<close>

definition arrayMove :: "'a list \<Rightarrow> nat \<Rightarrow> nat \<Rightarrow> 'a list" where
  "arrayMove xs from to = spliceIn to (xs ! from) (spliceOut from xs)"



text \<open>A value of type \<^verbatim>\<open>string | null\<close> (or an optional string) is truthy when it is a
  non-empty string.\<close>

fun truthy :: "string option \<Rightarrow> bool" where
  "truthy None = False"
| "truthy (Some s) = (s \<noteq> [])"

section \<open>Item tree operations (src/components/CategoryDetail.tsx)\<close>

text \<open>The root insertion rule shared by \<^verbatim>\<open>handleAddItem\<close> and \<^verbatim>\<open>handleMoveOption\<close>:
  before the first item tagged \<^verbatim>\<open>OPTION\<close>, or at the end when there is none.\<close>

definition insertBeforeFirstOption :: "item \<Rightarrow> item list \<Rightarrow> item list" where
  "insertBeforeFirstOption x newItems =
     (case findIndex is_OPTION newItems of
        Some firstOptionIndex \<Rightarrow> spliceIn firstOptionIndex x newItems
      | None \<Rightarrow> newItems @ [x])"


text \<open>
  \<^verbatim>\<open>handleDeleteItem\<close>.  \<open>confirmed\<close> is the answer of \<^verbatim>\<open>window.confirm\<close>.  With a
  truthy \<open>parentGroupId\<close> the item found under that id is used as a group without a look
  at its tag: an option has no \<^verbatim>\<open>items\<close>, so \<^verbatim>\<open>group.items.filter\<close> raises a
  \<^verbatim>\<open>TypeError\<close> there.
\<close>

definition handleDeleteItem ::
  "bool \<Rightarrow> ID \<Rightarrow> ID option \<Rightarrow> int \<Rightarrow> Category \<Rightarrow> error + Category option"
where
  "handleDeleteItem confirmed itemId parentGroupId now category =
     (if \<not> confirmed then Inr None
      else
        let newItems = items category in
        if truthy parentGroupId then
          (case findIndex (\<lambda>i. Some (item_id i) = parentGroupId) newItems of
             Some groupIndex \<Rightarrow>
               (case newItems ! groupIndex of
                  GROUP g t c its \<Rightarrow>
                    Inr (Some (category\<lparr>items := newItems[groupIndex :=
                                 GROUP g t c (filter (\<lambda>i. item_id i \<noteq> itemId) its)],
                               modifiedAt := now\<rparr>))
                | OPTION _ _ _ \<Rightarrow> Inl TypeError)
           | None \<Rightarrow> Inr (Some (category\<lparr>items := newItems, modifiedAt := now\<rparr>)))
        else Inr (Some (category\<lparr>items := filter (\<lambda>i. item_id i \<noteq> itemId) newItems,
                                  modifiedAt := now\<rparr>)))"

text \<open>
  The search loop of \<^verbatim>\<open>handleMoveOption\<close> over the groups: the first group that holds
  an item with the id gives it up; the result is that item and the updated array.
\<close>

fun takeFromGroups :: "ID \<Rightarrow> item list \<Rightarrow> (item \<times> item list) option" where
  "takeFromGroups m [] = None"
| "takeFromGroups m (OPTION g t c # xs) =
     map_option (\<lambda>(x, r). (x, OPTION g t c # r)) (takeFromGroups m xs)"
| "takeFromGroups m (GROUP g t c its # xs) =
     (case findIndex (\<lambda>sub. item_id sub = m) its of
        Some subIndex \<Rightarrow> Some (its ! subIndex, GROUP g t c (spliceOut subIndex its) # xs)
      | None \<Rightarrow> map_option (\<lambda>(x, r). (x, GROUP g t c its # r)) (takeFromGroups m xs))"

text \<open>The first half of \<^verbatim>\<open>handleMoveOption\<close>: search the root, then the groups.\<close>

definition takeItem :: "ID \<Rightarrow> item list \<Rightarrow> (item \<times> item list) option" where
  "takeItem m newItems =
     (case findIndex (\<lambda>i. item_id i = m) newItems of
        Some rootIndex \<Rightarrow> Some (newItems ! rootIndex, spliceOut rootIndex newItems)
      | None \<Rightarrow> takeFromGroups m newItems)"

text \<open>The second half: put the item at its destination.\<close>

definition putItem :: "string \<Rightarrow> item \<Rightarrow> item list \<Rightarrow> item list" where
  "putItem targetGroupId itemToMove newItems =
     (if targetGroupId = ''ROOT'' then insertBeforeFirstOption itemToMove newItems
      else
        (case findIndex (\<lambda>i. item_id i = targetGroupId) newItems of
           Some destIndex \<Rightarrow>
             (case newItems ! destIndex of
                GROUP g t c its \<Rightarrow> newItems[destIndex := GROUP g t c (its @ [itemToMove])]
              | OPTION _ _ _ \<Rightarrow> newItems)
         | None \<Rightarrow> newItems))"

text \<open>\<^verbatim>\<open>handleMoveOption\<close>; \<open>moveTargetId\<close> is the component state set by \<^verbatim>\<open>openMoveModal\<close>.\<close>

definition handleMoveOption :: "ID option \<Rightarrow> string \<Rightarrow> int \<Rightarrow> Category \<Rightarrow> Category option" where
  "handleMoveOption moveTargetId targetGroupId now category =
     (case moveTargetId of
        None \<Rightarrow> None
      | Some m \<Rightarrow>
          if m = [] then None
          else
            (case takeItem m (items category) of
               None \<Rightarrow> None
             | Some (itemToMove, newItems) \<Rightarrow>
                 Some (category\<lparr>items := putItem targetGroupId itemToMove newItems,
                                modifiedAt := now\<rparr>)))"

text \<open>\<^verbatim>\<open>i.type === 'GROUP' && i.items.some(o => o.id === a)\<close>.\<close>

fun groupHolds :: "ID \<Rightarrow> item \<Rightarrow> bool" where
  "groupHolds a (GROUP _ _ _ its) = some (\<lambda>sub. item_id sub = a) its"
| "groupHolds a (OPTION _ _ _) = False"

text \<open>The two root branches of \<^verbatim>\<open>handleDragEnd\<close> are the same code: both indices are
  looked up in the whole \<^verbatim>\<open>category.items\<close>.  Each branch is entered only when both ids
  were found in a filtered copy of that array, so neither lookup gives -1.\<close>

definition reorderRoot :: "ID \<Rightarrow> ID \<Rightarrow> int \<Rightarrow> Category \<Rightarrow> Category option" where
  "reorderRoot active overId now category =
     (case (findIndex (\<lambda>i. item_id i = active) (items category),
            findIndex (\<lambda>i. item_id i = overId) (items category)) of
        (Some oldIndex, Some newIndex) \<Rightarrow>
          Some (category\<lparr>items := arrayMove (items category) oldIndex newIndex,
                         modifiedAt := now\<rparr>)
      | _ \<Rightarrow> None)"


text \<open>\<^verbatim>\<open>findItem\<close>: the root first, then one level into each group.\<close>

fun findInGroups :: "ID \<Rightarrow> item list \<Rightarrow> item option" where
  "findInGroups a [] = None"
| "findInGroups a (OPTION _ _ _ # xs) = findInGroups a xs"
| "findInGroups a (GROUP _ _ _ its # xs) =
     (case find (\<lambda>sub. item_id sub = a) its of Some sub \<Rightarrow> Some sub | None \<Rightarrow> findInGroups a xs)"

definition findItem :: "Category \<Rightarrow> ID \<Rightarrow> item option" where
  "findItem category a =
     (case find (\<lambda>i. item_id i = a) (items category) of
        Some root \<Rightarrow> Some root
      | None \<Rightarrow> findInGroups a (items category))"

section \<open>Invariants and measures of a category\<close>

text \<open>The invariant of the data model: the items of every root group are options.\<close>

fun holdsOptions :: "item \<Rightarrow> bool" where
  "holdsOptions (OPTION _ _ _) = True"
| "holdsOptions (GROUP _ _ _ its) = list_all is_OPTION its"

definition groupsHoldOptions :: "item list \<Rightarrow> bool" where
  "groupsHoldOptions xs = list_all holdsOptions xs"

text \<open>The number of options of a category: those at the root plus those in every group.\<close>

fun optionsIn :: "item \<Rightarrow> nat" where
  "optionsIn (OPTION _ _ _) = 1"
| "optionsIn (GROUP _ _ _ its) = length (filter is_OPTION its)"

definition optionCount :: "item list \<Rightarrow> nat" where
  "optionCount xs = sum_list (map optionsIn xs)"

text \<open>The two logical sub-sequences of the flat \<^verbatim>\<open>items\<close> array.\<close>

definition rootGroups :: "item list \<Rightarrow> item list" where
  "rootGroups xs = filter is_GROUP xs"




text \<open>
  What "still present after the merge" means.  \<open>keptList r xs ys\<close>: every position of
  \<open>xs\<close> exists in \<open>ys\<close> and holds a counterpart under \<open>r\<close>.  An option is kept when it is
  there unchanged; a group when it has the same id, title and creation time and its old
  items form the front of its new items; a category when its id, title, description and
  creation time are the same and its items are kept.
\<close>

fun keptList :: "('a \<Rightarrow> 'a \<Rightarrow> bool) \<Rightarrow> 'a list \<Rightarrow> 'a list \<Rightarrow> bool" where
  "keptList r [] ys = True"
| "keptList r (x # xs) [] = False"
| "keptList r (x # xs) (y # ys) = (r x y \<and> keptList r xs ys)"

fun keptItem :: "item \<Rightarrow> item \<Rightarrow> bool" where
  "keptItem (OPTION a t c) y = (y = OPTION a t c)"
| "keptItem (GROUP a t c xs) (GROUP b u d ys) = (b = a \<and> u = t \<and> d = c \<and> prefix xs ys)"
| "keptItem (GROUP a t c xs) (OPTION b u d) = False"

definition keptCategory :: "Category \<Rightarrow> Category \<Rightarrow> bool" where
  "keptCategory c d =
     (cat_id d = cat_id c \<and> title d = title c \<and> description d = description c
      \<and> createdAt d = createdAt c \<and> keptList keptItem (items c) (items d))"

text \<open>
  Notions for the second import.  \<open>covers x y\<close>: \<open>y\<close> has the kind and title of \<open>x\<close> and,
  for groups, every option title of \<open>x\<close>.  \<open>absorbedItem newItems it\<close>: merging \<open>it\<close> into
  \<open>newItems\<close> finds nothing to add: an option meets a root option of its title; a group
  meets a group of its title (the first one, as \<open>findIndex\<close> picks it) that has all its
  option titles.  \<open>absorbedCategory\<close> is the same one level up.  \<open>groupsCovered xs\<close>: every
  item of \<open>xs\<close> is absorbed by \<open>xs\<close> itself, that is, every group's option titles occur in
  the first group of \<open>xs\<close> with its title.  \<open>sansModifiedAt\<close> blanks the time stamp that
  every merge into an existing category refreshes.
\<close>

fun covers :: "item \<Rightarrow> item \<Rightarrow> bool" where
  "covers (OPTION a t c) y = (is_OPTION y \<and> item_title y = t)"
| "covers (GROUP a t c xs) (GROUP b u d ys) =
     (u = t \<and> set (map item_title xs) \<subseteq> set (map item_title ys))"
| "covers (GROUP a t c xs) (OPTION b u d) = False"

fun absorbedItem :: "item list \<Rightarrow> item \<Rightarrow> bool" where
  "absorbedItem newItems (OPTION oi ot oc) = some (\<lambda>i. is_OPTION i \<and> item_title i = ot) newItems"
| "absorbedItem newItems (GROUP gi gt gc subs) =
     (case findIndex (\<lambda>i. is_GROUP i \<and> item_title i = gt) newItems of
        None \<Rightarrow> False
      | Some k \<Rightarrow>
          (case newItems ! k of
             GROUP eg et ec existing \<Rightarrow>
               list_all (\<lambda>s. item_title s \<in> set (map item_title existing)) subs
           | OPTION _ _ _ \<Rightarrow> False))"


definition groupsCovered :: "item list \<Rightarrow> bool" where
  "groupsCovered xs = list_all (absorbedItem xs) xs"


definition coversCategory :: "Category \<Rightarrow> Category \<Rightarrow> bool" where
  "coversCategory c d = (title d = title c \<and> keptList covers (items c) (items d))"


section \<open>Loading the persisted document (src/App.tsx, \<^verbatim>\<open>AppContent\<close>)\<close>

text \<open>A parsed JSON value.\<close>

datatype json =
    JNull
  | JBool bool
  | JNumber int
  | JString string
  | JArray "json list"
  | JObject "(string \<times> json) list"

text \<open>
  The initialiser of the \<^verbatim>\<open>categories\<close> state.  \<open>stored\<close> is what
  \<^verbatim>\<open>localStorage.getItem\<close> returns (\<open>None\<close> for \<^verbatim>\<open>null\<close>); \<open>parse\<close> stands for the
  built-in \<^verbatim>\<open>JSON.parse\<close>, with \<open>None\<close> where it raises a \<^verbatim>\<open>SyntaxError\<close>, which the
  \<^verbatim>\<open>catch\<close> turns into the empty array.  The parsed value becomes the state as it is.
\<close>

definition loadCategories :: "(string \<Rightarrow> json option) \<Rightarrow> string option \<Rightarrow> json" where
  "loadCategories parse stored =
     (if truthy stored then
        (case parse (the stored) of
           Some v \<Rightarrow> v
         | None \<Rightarrow> JArray [])
      else JArray [])"

section \<open>Title-based import merge (src/App.tsx, \<^verbatim>\<open>importCategories\<close>)\<close>

text \<open>
  \<^verbatim>\<open>generateId\<close> lives in a module that is not part of the sources at hand; it is taken
  as a parameter: \<open>gen k\<close> is the value of its \<open>k\<close>-th call, and the functions below
  thread the number of calls made so far.  \<^verbatim>\<open>{ ...x, id: generateId() }\<close>:
\<close>

fun withId :: "item \<Rightarrow> ID \<Rightarrow> item" where
  "withId (OPTION _ t c) new = OPTION new t c"
| "withId (GROUP _ t c its) new = GROUP new t c its"

text \<open>\<^verbatim>\<open>items.map(sub => ({ ...sub, id: generateId() }))\<close>.\<close>

fun regenSubs :: "(nat \<Rightarrow> ID) \<Rightarrow> nat \<Rightarrow> item list \<Rightarrow> item list \<times> nat" where
  "regenSubs gen n [] = ([], n)"
| "regenSubs gen n (sub # subs) =
     (let (rest, n') = regenSubs gen (Suc n) subs in (withId sub (gen n) # rest, n'))"

text \<open>A copy of an imported item under fresh ids: a group draws its own id first, then
  one for each of its items.\<close>

fun regenItem :: "(nat \<Rightarrow> ID) \<Rightarrow> nat \<Rightarrow> item \<Rightarrow> item \<times> nat" where
  "regenItem gen n (GROUP _ t c subs) =
     (let (subs', n') = regenSubs gen (Suc n) subs in (GROUP (gen n) t c subs', n'))"
| "regenItem gen n (OPTION _ t c) = (OPTION (gen n) t c, Suc n)"

fun regenItems :: "(nat \<Rightarrow> ID) \<Rightarrow> nat \<Rightarrow> item list \<Rightarrow> item list \<times> nat" where
  "regenItems gen n [] = ([], n)"
| "regenItems gen n (x # xs) =
     (let (x', n') = regenItem gen n x;
          (rest, n'') = regenItems gen n' xs
      in (x' # rest, n''))"

text \<open>
  The inner loop over the options of an imported group that meets a group of its title:
  \<open>existingSubTitles\<close> is computed before the loop and not touched by it.
\<close>

fun mergeSubItems ::
  "(nat \<Rightarrow> ID) \<Rightarrow> string list \<Rightarrow> item list \<times> nat \<Rightarrow> item list \<Rightarrow> item list \<times> nat"
where
  "mergeSubItems gen existingSubTitles (existingGroupItems, n) [] = (existingGroupItems, n)"
| "mergeSubItems gen existingSubTitles (existingGroupItems, n) (impSubItem # rest) =
     (if item_title impSubItem \<in> set existingSubTitles
      then mergeSubItems gen existingSubTitles (existingGroupItems, n) rest
      else mergeSubItems gen existingSubTitles
             (existingGroupItems @ [withId impSubItem (gen n)], Suc n) rest)"

text \<open>The body of \<^verbatim>\<open>impCat.items.forEach\<close>.\<close>

fun mergeItem :: "(nat \<Rightarrow> ID) \<Rightarrow> item list \<times> nat \<Rightarrow> item \<Rightarrow> item list \<times> nat" where
  "mergeItem gen (newItems, n) (GROUP gi gt gc subs) =
     (case findIndex (\<lambda>i. is_GROUP i \<and> item_title i = gt) newItems of
        Some existingGroupIndex \<Rightarrow>
          (case newItems ! existingGroupIndex of
             GROUP eg et ec existingGroupItems \<Rightarrow>
               (let (merged, n') =
                      mergeSubItems gen (map item_title existingGroupItems)
                        (existingGroupItems, n) subs
                in (newItems[existingGroupIndex := GROUP eg et ec merged], n'))
           | OPTION _ _ _ \<Rightarrow> (newItems, n))
      | None \<Rightarrow>
          (let (g', n') = regenItem gen n (GROUP gi gt gc subs) in (newItems @ [g'], n')))"
| "mergeItem gen (newItems, n) (OPTION oi ot oc) =
     (if some (\<lambda>i. is_OPTION i \<and> item_title i = ot) newItems
      then (newItems, n)
      else (newItems @ [OPTION (gen n) ot oc], Suc n))"

text \<open>The body of \<^verbatim>\<open>imported.forEach\<close>; \<open>now\<close> is the clock reading of this round.\<close>

definition importStep ::
  "(nat \<Rightarrow> ID) \<Rightarrow> int \<Rightarrow> Category list \<times> nat \<Rightarrow> Category \<Rightarrow> Category list \<times> nat"
where
  "importStep gen now st impCat =
     (case st of (newCategories, n) \<Rightarrow>
        (case findIndex (\<lambda>c. title c = title impCat) newCategories of
           Some existingCatIndex \<Rightarrow>
             (let existingCat = newCategories ! existingCatIndex;
                  (newItems, n') = foldl (mergeItem gen) (items existingCat, n) (items impCat)
              in (newCategories[existingCatIndex :=
                    existingCat\<lparr>items := newItems, modifiedAt := now\<rparr>], n'))
         | None \<Rightarrow>
             (let (its, n') = regenItems gen (Suc n) (items impCat)
              in (newCategories @ [impCat\<lparr>cat_id := gen n, items := its\<rparr>], n'))))"

text \<open>
  \<^verbatim>\<open>importCategories\<close>: \<open>prev\<close> is the document, \<open>imported\<close> the validated file content,
  \<open>n\<close> the number of ids generated before the call and \<open>now k\<close> the clock reading while
  the \<open>k\<close>-th imported category is handled.  The result is the new document and the
  number of ids generated so far.
\<close>

fun importLoop ::
  "(nat \<Rightarrow> ID) \<Rightarrow> (nat \<Rightarrow> int) \<Rightarrow> nat \<Rightarrow> Category list \<times> nat \<Rightarrow> Category list
     \<Rightarrow> Category list \<times> nat"
where
  "importLoop gen now k st [] = st"
| "importLoop gen now k st (impCat # rest) =
     importLoop gen now (Suc k) (importStep gen (now k) st impCat) rest"

definition importCategories ::
  "(nat \<Rightarrow> ID) \<Rightarrow> (nat \<Rightarrow> int) \<Rightarrow> nat \<Rightarrow> Category list \<Rightarrow> Category list \<Rightarrow> Category list \<times> nat"
where
  "importCategories gen now n prev imported = importLoop gen now 0 (prev, n) imported"

section \<open>Sample data\<close>

definition demoCategory :: "item list \<Rightarrow> Category" where
  "demoCategory xs =
     \<lparr>cat_id = ''c1'', title = ''Travel'', description = None,
      createdAt = 0, modifiedAt = 0, items = xs\<rparr>"



definition demoParse :: "string \<Rightarrow> json option" where
  "demoParse s = (if s = ''{}'' then Some (JObject []) else if s = ''[]'' then Some (JArray []) else None)"

section \<open>Facts about the array operations\<close>

lemma findIndex_None_iff: "findIndex p xs = None \<longleftrightarrow> (\<forall>x\<in>set xs. \<not> p x)"
  by (induction xs) auto

lemma findIndex_SomeD:
  "findIndex p xs = Some k \<Longrightarrow>
     k < length xs \<and> p (xs ! k) \<and> (\<forall>x\<in>set (take k xs). \<not> p x)"
proof (induction xs arbitrary: k)
  case Nil
  then show ?case by simp
next
  case (Cons x xs)
  show ?case
  proof (cases "p x")
    case True
    with Cons.prems show ?thesis by simp
  next
    case False
    with Cons.prems obtain j where j: "findIndex p xs = Some j" "k = Suc j" by auto
    from Cons.IH[OF j(1)] False j(2) show ?thesis by simp
  qed
qed

lemma findIndex_Some_ex: "(\<exists>x\<in>set xs. p x) \<Longrightarrow> \<exists>k. findIndex p xs = Some k"
  by (cases "findIndex p xs") (auto simp: findIndex_None_iff)

lemma some_iff: "some p xs \<longleftrightarrow> (\<exists>x\<in>set xs. p x)"
  by (simp add: some_def list_ex_iff)

section \<open>Insertion at the root\<close>







section \<open>Stale references\<close>





section \<open>Where the handlers miss a case\<close>

text \<open>
  C3.  \<^verbatim>\<open>handleDeleteItem\<close> with a \<open>parentGroupId\<close> that names an option at the root:
  the item found is used as a group, and reading its \<^verbatim>\<open>items\<close> raises.
\<close>

theorem deleteItem_parent_is_option_throws:
  "handleDeleteItem True ''h'' (Some ''a'') 9
     (demoCategory [GROUP ''g'' ''Beach'' 1 [OPTION ''h'' ''Hawaii'' 3], OPTION ''a'' ''Alps'' 2])
   = Inl TypeError"
  by (simp add: handleDeleteItem_def demoCategory_def)

text \<open>The other half of C3 holds: a \<open>parentGroupId\<close> that no root item carries leaves
  the items as they were.\<close>

lemma deleteItem_absent_parent:
  assumes "p \<noteq> []" "\<forall>i\<in>set (items category). item_id i \<noteq> p"
  shows "handleDeleteItem True itemId (Some p) now category =
           Inr (Some (category\<lparr>modifiedAt := now\<rparr>))"
proof -
  from assms have "findIndex (\<lambda>i. item_id i = p) (items category) = None"
    by (simp add: findIndex_None_iff)
  with assms(1) show ?thesis by (simp add: handleDeleteItem_def)
qed

text \<open>
  C1.  \<^verbatim>\<open>handleMoveOption\<close> with a destination id that no root item carries: the option
  has already been taken out of its container when the destination is looked up, and
  the category is handed on without it.
\<close>

theorem moveOption_unresolved_destination_drops:
  "handleMoveOption (Some ''a'') ''gone'' 9
     (demoCategory [GROUP ''g'' ''Beach'' 1 [OPTION ''h'' ''Hawaii'' 3], OPTION ''a'' ''Alps'' 2])
   = Some ((demoCategory [GROUP ''g'' ''Beach'' 1 [OPTION ''h'' ''Hawaii'' 3]])\<lparr>modifiedAt := 9\<rparr>)
   \<and> optionCount [GROUP ''g'' ''Beach'' 1 [OPTION ''h'' ''Hawaii'' 3], OPTION ''a'' ''Alps'' 2] = 2
   \<and> optionCount [GROUP ''g'' ''Beach'' 1 [OPTION ''h'' ''Hawaii'' 3]] = 1"
  by (simp add: handleMoveOption_def takeItem_def putItem_def spliceOut_def demoCategory_def
        optionCount_def)

text \<open>
  C2.  \<^verbatim>\<open>handleMoveOption\<close> with the id of a root group as the item to move and the id
  of another group as the destination: the group found at the root is moved like an
  option, and ends up among the items of the other group.
\<close>

theorem moveOption_nests_group:
  "groupsHoldOptions [GROUP ''g1'' ''Beach'' 1 [OPTION ''h'' ''Hawaii'' 3], GROUP ''g2'' ''Hills'' 2 []]
   \<and> handleMoveOption (Some ''g1'') ''g2'' 9
       (demoCategory [GROUP ''g1'' ''Beach'' 1 [OPTION ''h'' ''Hawaii'' 3], GROUP ''g2'' ''Hills'' 2 []])
     = Some ((demoCategory
               [GROUP ''g2'' ''Hills'' 2 [GROUP ''g1'' ''Beach'' 1 [OPTION ''h'' ''Hawaii'' 3]]])
             \<lparr>modifiedAt := 9\<rparr>)
   \<and> \<not> groupsHoldOptions
         [GROUP ''g2'' ''Hills'' 2 [GROUP ''g1'' ''Beach'' 1 [OPTION ''h'' ''Hawaii'' 3]]]"
  by (simp add: handleMoveOption_def takeItem_def putItem_def spliceOut_def demoCategory_def
        groupsHoldOptions_def)

text \<open>
  C7.  A stored string that parses to a value which is not an array (here an empty
  object) becomes the state as it is; only a string that does not parse gives the empty
  document.
\<close>

theorem load_keeps_wrong_shape:
  "demoParse ''{}'' = Some (JObject [])
   \<and> loadCategories demoParse (Some ''{}'') = JObject []
   \<and> loadCategories demoParse (Some ''{'') = JArray []"
  by (simp add: loadCategories_def demoParse_def)

lemma load_unparsable_or_missing:
  "parse s = None \<Longrightarrow> loadCategories parse (Some s) = JArray []"
  "loadCategories parse None = JArray []"
  "loadCategories parse (Some []) = JArray []"
  by (simp_all add: loadCategories_def)

lemma load_parsed: "s \<noteq> [] \<Longrightarrow> parse s = Some v \<Longrightarrow> loadCategories parse (Some s) = v"
  by (simp add: loadCategories_def)

section \<open>The import merge: fresh ids and the inner loop\<close>

lemma withId_title: "item_title (withId s i) = item_title s"
  by (cases s) simp_all

lemma withId_kind: "is_GROUP (withId s i) = is_GROUP s" "is_OPTION (withId s i) = is_OPTION s"
  by (cases s; simp)+

lemma regenSubs_snd: "snd (regenSubs gen n subs) = n + length subs"
  by (induction subs arbitrary: n) (simp_all add: case_prod_unfold Let_def)

lemma regenSubs_titles: "map item_title (fst (regenSubs gen n subs)) = map item_title subs"
  by (induction subs arbitrary: n) (simp_all add: case_prod_unfold Let_def withId_title)

lemma regenSubs_length: "length (fst (regenSubs gen n subs)) = length subs"
  using regenSubs_titles[of gen n subs] by (metis length_map)

text \<open>The inner loop in closed form: the test is against the titles the group had before
  the loop, so what is appended is the imported options filtered by that fixed set.\<close>

lemma mergeSubItems_filter:
  "mergeSubItems gen S (acc, n) subs =
     (acc @ fst (regenSubs gen n (filter (\<lambda>s. item_title s \<notin> set S) subs)),
      n + length (filter (\<lambda>s. item_title s \<notin> set S) subs))"
  by (induction subs arbitrary: acc n) (simp_all add: case_prod_unfold Let_def regenSubs_snd)



section \<open>The import merge only adds\<close>

lemma keptList_nth:
  "keptList r xs ys \<longleftrightarrow> length xs \<le> length ys \<and> (\<forall>i<length xs. r (xs ! i) (ys ! i))"
proof (induction r xs ys rule: keptList.induct)
  case (3 r x xs y ys)
  then show ?case by (auto simp: nth_Cons split: nat.splits) 
qed simp_all

lemma keptList_refl: "(\<And>x. r x x) \<Longrightarrow> keptList r xs xs"
  by (simp add: keptList_nth)

lemma keptList_trans:
  assumes tr: "\<And>x y z. r x y \<Longrightarrow> r y z \<Longrightarrow> r x z"
    and a: "keptList r xs ys" and b: "keptList r ys zs"
  shows "keptList r xs zs"
proof -
  from a have l1: "length xs \<le> length ys" and p1: "\<And>i. i < length xs \<Longrightarrow> r (xs ! i) (ys ! i)"
    by (simp_all add: keptList_nth)
  from b have l2: "length ys \<le> length zs" and p2: "\<And>i. i < length ys \<Longrightarrow> r (ys ! i) (zs ! i)"
    by (simp_all add: keptList_nth)
  have "r (xs ! i) (zs ! i)" if "i < length xs" for i
  proof -
    from that l1 have "i < length ys" by simp
    from tr[OF p1[OF that] p2[OF this]] show ?thesis .
  qed
  with l1 l2 show ?thesis by (simp add: keptList_nth)
qed

lemma keptList_append: "(\<And>x. r x x) \<Longrightarrow> keptList r xs (xs @ ys)"
  by (simp add: keptList_nth nth_append)

lemma keptList_update:
  assumes "\<And>x. r x x" "r (xs ! k) y"
  shows "keptList r xs (xs[k := y])"
proof -
  have "r (xs ! i) (xs[k := y] ! i)" if "i < length xs" for i
    using assms that by (cases "i = k") simp_all
  then show ?thesis by (simp add: keptList_nth)
qed


lemma keptItem_refl: "keptItem x x"
  by (cases x) simp_all

lemma keptItem_trans: "keptItem x y \<Longrightarrow> keptItem y z \<Longrightarrow> keptItem x z"
  by (cases x; cases y; cases z) auto

lemma keptCategory_refl: "keptCategory c c"
  by (simp add: keptCategory_def keptList_refl keptItem_refl)

lemma keptCategory_trans:
  assumes "keptCategory c d" "keptCategory d e"
  shows "keptCategory c e"
proof -
  from assms have a: "keptList keptItem (items c) (items d)"
    and b: "keptList keptItem (items d) (items e)"
    by (simp_all add: keptCategory_def)
  have "keptList keptItem (items c) (items e)"
    by (rule keptList_trans[of keptItem, OF keptItem_trans a b])
  with assms show ?thesis by (simp add: keptCategory_def)
qed

lemma mergeItem_kept: "keptList keptItem xs (fst (mergeItem gen (xs, n) it))"
proof (cases it)
  case (OPTION oi ot oc)
  then show ?thesis by (simp add: keptList_refl keptList_append keptItem_refl)
next
  case (GROUP gi gt gc subs)
  show ?thesis
  proof (cases "findIndex (\<lambda>i. is_GROUP i \<and> item_title i = gt) xs")
    case None
    with GROUP show ?thesis
      by (simp add: case_prod_unfold Let_def keptList_append keptItem_refl)
  next
    case (Some k)
    show ?thesis
    proof (cases "xs ! k")
      case (OPTION a b c)
      with Some GROUP show ?thesis by (simp add: keptList_refl keptItem_refl)
    next
      case g: (GROUP eg et ec existing)
      have "keptItem (xs ! k) (GROUP eg et ec (fst (mergeSubItems gen (map item_title existing) (existing, n) subs)))"
        by (simp add: g mergeSubItems_filter)
      from keptList_update[of keptItem, OF keptItem_refl this]
      show ?thesis using Some GROUP g by (simp add: case_prod_unfold Let_def)
    qed
  qed
qed

lemma foldl_mergeItem_kept:
  "keptList keptItem xs (fst (foldl (mergeItem gen) (xs, n) its))"
proof (induction its arbitrary: xs n)
  case Nil
  then show ?case by (simp add: keptList_refl keptItem_refl)
next
  case (Cons it its)
  obtain xs1 n1 where s: "mergeItem gen (xs, n) it = (xs1, n1)" by (cases "mergeItem gen (xs, n) it")
  have a: "keptList keptItem xs xs1" using mergeItem_kept[of xs gen n it] s by simp
  have b: "keptList keptItem xs1 (fst (foldl (mergeItem gen) (xs1, n1) its))" by (rule Cons.IH)
  from keptList_trans[of keptItem, OF keptItem_trans a b] show ?case using s by simp
qed

lemma importStep_kept:
  "keptList keptCategory cats (fst (importStep gen now (cats, n) c))"
proof (cases "findIndex (\<lambda>e. title e = title c) cats")
  case None
  then show ?thesis
    by (simp add: importStep_def case_prod_unfold Let_def keptList_append keptCategory_refl)
next
  case (Some k)
  have "keptCategory (cats ! k)
      ((cats ! k)\<lparr>items := fst (foldl (mergeItem gen) (items (cats ! k), n) (items c)), modifiedAt := now\<rparr>)"
    by (simp add: keptCategory_def foldl_mergeItem_kept)
  from keptList_update[of keptCategory, OF keptCategory_refl this]
  show ?thesis using Some by (simp add: importStep_def case_prod_unfold Let_def)
qed

lemma importLoop_kept:
  "keptList keptCategory (fst st) (fst (importLoop gen now k st imported))"
proof (induction imported arbitrary: st k)
  case Nil
  then show ?case by (simp add: keptList_refl keptCategory_refl)
next
  case (Cons c imported)
  have a: "keptList keptCategory (fst st) (fst (importStep gen (now k) st c))"
    using importStep_kept[of "fst st" gen "now k" "snd st" c] by simp
  have b: "keptList keptCategory (fst (importStep gen (now k) st c))
      (fst (importLoop gen now (Suc k) (importStep gen (now k) st c) imported))"
    by (rule Cons.IH)
  from keptList_trans[of keptCategory, OF keptCategory_trans a b] show ?case by simp
qed

text \<open>
  C5.  Whatever is imported, every category of the document is still there afterwards,
  at its position and with its id, title, description and creation time; every one of
  its root items is still at its position in it, an option unchanged, a group with its
  id and title and with all its old options, unchanged, at the front of its items.
\<close>

theorem merge_never_deletes:
  "keptList keptCategory prev (fst (importCategories gen now n prev imported))"
  using importLoop_kept[of "(prev, n)" gen now 0 imported] by (simp add: importCategories_def)

section \<open>Importing the same list again\<close>



lemma covers_trans: "covers x y \<Longrightarrow> covers y z \<Longrightarrow> covers x z"
  by (cases x; cases y; cases z) auto













lemma coversCategory_trans:
  assumes "coversCategory c d" "coversCategory d e"
  shows "coversCategory c e"
proof -
  from assms have a: "keptList covers (items c) (items d)"
    and b: "keptList covers (items d) (items e)"
    by (simp_all add: coversCategory_def)
  have "keptList covers (items c) (items e)"
    by (rule keptList_trans[of covers, OF covers_trans a b])
  with assms show ?thesis by (simp add: coversCategory_def)
qed











lemma distinct_groups_covered:
  assumes "distinct (map item_title (rootGroups xs))"
  shows "groupsCovered xs"
proof -
  from assms have inj: "inj_on item_title (set (rootGroups xs))" by (simp add: distinct_map)
  have "absorbedItem xs x" if x: "x \<in> set xs" for x
  proof (cases x)
    case (OPTION oi ot oc)
    with x have "OPTION oi ot oc \<in> set xs" "is_OPTION (OPTION oi ot oc)"
      "item_title (OPTION oi ot oc) = ot" by simp_all
    then have "\<exists>y\<in>set xs. is_OPTION y \<and> item_title y = ot" by blast
    with OPTION show ?thesis by (simp add: some_iff)
  next
    case (GROUP gi gt gc subs)
    with x have "GROUP gi gt gc subs \<in> set xs" "is_GROUP (GROUP gi gt gc subs)"
      "item_title (GROUP gi gt gc subs) = gt" by simp_all
    then have "\<exists>y\<in>set xs. is_GROUP y \<and> item_title y = gt" by blast
    from findIndex_Some_ex[of xs "\<lambda>i. is_GROUP i \<and> item_title i = gt", OF this]
    obtain k where k: "findIndex (\<lambda>i. is_GROUP i \<and> item_title i = gt) xs = Some k" ..
    from findIndex_SomeD[OF k] have kl: "k < length xs" and g: "is_GROUP (xs ! k)"
      and t: "item_title (xs ! k) = gt" by simp_all
    from kl g have m1: "xs ! k \<in> set (rootGroups xs)" by (simp add: rootGroups_def)
    from x GROUP have m2: "x \<in> set (rootGroups xs)" by (simp add: rootGroups_def)
    from t GROUP have "item_title (xs ! k) = item_title x" by simp
    from inj_onD[OF inj this m1 m2] have same: "xs ! k = GROUP gi gt gc subs" using GROUP by simp
    have "list_all (\<lambda>s. item_title s \<in> set (map item_title subs)) subs"
      by (simp add: list_all_iff)
    then have "absorbedItem xs (GROUP gi gt gc subs)"
      by (simp only: absorbedItem.simps k same option.case item.case)
    with GROUP show ?thesis by simp
  qed
  then show ?thesis by (simp add: groupsCovered_def list_all_iff)
qed




section \<open>The order of the two root sub-sequences\<close>




























section \<open>Branches that are never taken\<close>

text \<open>
  The model gives \<open>None\<close>, or leaves the items alone, where a lookup that the source
  does not test would give -1 or an item of the wrong kind.  The tests that guard these
  lookups make that impossible: both indices of a root or nested reorder are found, and
  the parent found for a nested reorder and the target found for a group merge are
  groups.
\<close>

lemma findIndex_of_filtered:
  assumes "some p (filter K xs)"
  shows "\<exists>i. findIndex p xs = Some i"
proof -
  from assms have "\<exists>x\<in>set xs. p x" by (auto simp: some_iff)
  then show ?thesis by (rule findIndex_Some_ex)
qed

lemma reorderRoot_lookups_found:
  assumes "some (\<lambda>x. item_id x = a) (filter K (items c))"
    and "some (\<lambda>x. item_id x = b) (filter K (items c))"
  shows "\<exists>i j. findIndex (\<lambda>x. item_id x = a) (items c) = Some i
             \<and> findIndex (\<lambda>x. item_id x = b) (items c) = Some j
             \<and> reorderRoot a b now c =
                 Some (c\<lparr>items := arrayMove (items c) i j, modifiedAt := now\<rparr>)"
proof -
  from findIndex_of_filtered[OF assms(1)] obtain i
    where i: "findIndex (\<lambda>x. item_id x = a) (items c) = Some i" ..
  from findIndex_of_filtered[OF assms(2)] obtain j
    where j: "findIndex (\<lambda>x. item_id x = b) (items c) = Some j" ..
  from i j have "reorderRoot a b now c =
                 Some (c\<lparr>items := arrayMove (items c) i j, modifiedAt := now\<rparr>)"
    by (simp add: reorderRoot_def)
  with i j show ?thesis by blast
qed

lemma nested_lookups_found:
  assumes "groupHolds a (GROUP g t d its)" "some (\<lambda>s. item_id s = b) its"
  shows "\<exists>i j. findIndex (\<lambda>s. item_id s = a) its = Some i
             \<and> findIndex (\<lambda>s. item_id s = b) its = Some j"
proof -
  from assms(1) have "\<exists>x\<in>set its. item_id x = a" by (simp add: some_iff)
  from findIndex_Some_ex[of its "\<lambda>s. item_id s = a", OF this] obtain i
    where i: "findIndex (\<lambda>s. item_id s = a) its = Some i" ..
  from assms(2) have "\<exists>x\<in>set its. item_id x = b" by (simp add: some_iff)
  from findIndex_Some_ex[of its "\<lambda>s. item_id s = b", OF this] obtain j
    where j: "findIndex (\<lambda>s. item_id s = b) its = Some j" ..
  from i j show ?thesis by blast
qed

lemma parent_found_is_group:
  "findIndex (groupHolds a) xs = Some k \<Longrightarrow> is_GROUP (xs ! k)"
proof -
  assume "findIndex (groupHolds a) xs = Some k"
  from findIndex_SomeD[OF this] have "groupHolds a (xs ! k)" by simp
  then show ?thesis by (cases "xs ! k") simp_all
qed

lemma merge_target_is_group:
  "findIndex (\<lambda>i. is_GROUP i \<and> item_title i = gt) xs = Some k \<Longrightarrow> is_GROUP (xs ! k)"
proof -
  assume "findIndex (\<lambda>i. is_GROUP i \<and> item_title i = gt) xs = Some k"
  from findIndex_SomeD[OF this] show ?thesis by simp
qed

end
